theory Spec2Isabelle
  imports Main "HOL-Library.List_Lexorder"
begin

section \<open>Python strings and bytes\<close>

text \<open>
  A Python \<^verbatim>\<open>str\<close> is a sequence of Unicode code points, a \<^verbatim>\<open>bytes\<close> object a
  sequence of integers below 256. Both are lists of naturals here; the order on
  \<open>pystr\<close> is the lexicographic one on code points, as Python compares strings.
\<close>

type_synonym codepoint = nat
type_synonym pystr = "codepoint list"
type_synonym pybytes = "nat list"

definition lit :: "string \<Rightarrow> pystr" where
  "lit s = map of_char s"

definition hyphen :: codepoint where
  "hyphen = 45"

text \<open>\<^verbatim>\<open>s.split(sep)\<close> for a separator of one character.\<close>

fun py_split :: "codepoint \<Rightarrow> pystr \<Rightarrow> pystr list" where
  "py_split sep [] = [[]]"
| "py_split sep (c # cs) =
     (if c = sep then [] # py_split sep cs
      else (case py_split sep cs of [] \<Rightarrow> [[c]] | p # ps \<Rightarrow> (c # p) # ps))"

text \<open>The characters \<^verbatim>\<open>str.isspace\<close> accepts, which \<^verbatim>\<open>str.strip()\<close> removes.\<close>

definition py_isspace :: "codepoint \<Rightarrow> bool" where
  "py_isspace c \<longleftrightarrow>
     (0x09 \<le> c \<and> c \<le> 0x0D) \<or> (0x1C \<le> c \<and> c \<le> 0x20) \<or> c = 0x85 \<or> c = 0xA0 \<or>
     c = 0x1680 \<or> (0x2000 \<le> c \<and> c \<le> 0x200A) \<or> c = 0x2028 \<or> c = 0x2029 \<or>
     c = 0x202F \<or> c = 0x205F \<or> c = 0x3000"

definition py_lstrip :: "pystr \<Rightarrow> pystr" where
  "py_lstrip s = dropWhile py_isspace s"

definition py_rstrip :: "pystr \<Rightarrow> pystr" where
  "py_rstrip s = rev (dropWhile py_isspace (rev s))"

definition py_strip :: "pystr \<Rightarrow> pystr" where
  "py_strip s = py_rstrip (py_lstrip s)"

text \<open>
  \<^verbatim>\<open>s.encode("utf-8")\<close> with the default strict error handler: a surrogate code
  point has no encoding and raises \<^verbatim>\<open>UnicodeEncodeError\<close> (the result \<open>None\<close>).
\<close>

definition utf8_encode_cp :: "codepoint \<Rightarrow> pybytes option" where
  "utf8_encode_cp c =
     (if c < 0x80 then Some [c]
      else if c < 0x800 then Some [0xC0 + c div 64, 0x80 + c mod 64]
      else if c < 0x10000 then
        (if 0xD800 \<le> c \<and> c \<le> 0xDFFF then None
         else Some [0xE0 + c div 4096, 0x80 + (c div 64) mod 64, 0x80 + c mod 64])
      else if c < 0x110000 then
        Some [0xF0 + c div 262144, 0x80 + (c div 4096) mod 64,
              0x80 + (c div 64) mod 64, 0x80 + c mod 64]
      else None)"

fun utf8_encode :: "pystr \<Rightarrow> pybytes option" where
  "utf8_encode [] = Some []"
| "utf8_encode (c # cs) =
     (case utf8_encode_cp c of
        None \<Rightarrow> None
      | Some bs \<Rightarrow> (case utf8_encode cs of None \<Rightarrow> None | Some r \<Rightarrow> Some (bs @ r)))"

text \<open>
  \<^verbatim>\<open>b.decode("utf-8")\<close>, strict: \<open>None\<close> stands for \<^verbatim>\<open>UnicodeDecodeError\<close>
  (a stray or missing continuation byte, an overlong form, a surrogate, a value
  beyond U+10FFFF).
\<close>

definition utf8_cont :: "nat \<Rightarrow> bool" where
  "utf8_cont b \<longleftrightarrow> 0x80 \<le> b \<and> b < 0xC0"

fun utf8_decode :: "pybytes \<Rightarrow> pystr option" where
  "utf8_decode [] = Some []"
| "utf8_decode (b # bs) =
     (if b < 0x80 then map_option ((#) b) (utf8_decode bs)
      else if 0xC2 \<le> b \<and> b < 0xE0 then
        (case bs of
           b1 # r \<Rightarrow>
             if utf8_cont b1
             then map_option ((#) ((b - 0xC0) * 64 + (b1 - 0x80))) (utf8_decode r)
             else None
         | _ \<Rightarrow> None)
      else if 0xE0 \<le> b \<and> b < 0xF0 then
        (case bs of
           b1 # b2 # r \<Rightarrow>
             (let c = (b - 0xE0) * 4096 + (b1 - 0x80) * 64 + (b2 - 0x80)
              in if utf8_cont b1 \<and> utf8_cont b2 \<and> 0x800 \<le> c \<and> (c < 0xD800 \<or> 0xDFFF < c)
                 then map_option ((#) c) (utf8_decode r)
                 else None)
         | _ \<Rightarrow> None)
      else if 0xF0 \<le> b \<and> b < 0xF5 then
        (case bs of
           b1 # b2 # b3 # r \<Rightarrow>
             (let c = (b - 0xF0) * 262144 + (b1 - 0x80) * 4096 + (b2 - 0x80) * 64 + (b3 - 0x80)
              in if utf8_cont b1 \<and> utf8_cont b2 \<and> utf8_cont b3 \<and> 0x10000 \<le> c \<and> c < 0x110000
                 then map_option ((#) c) (utf8_decode r)
                 else None)
         | _ \<Rightarrow> None)
      else None)"

text \<open>Decimal rendering of a length inside an f-string.\<close>

function str_of_nat :: "nat \<Rightarrow> pystr" where
  "str_of_nat n = (if n < 10 then [48 + n] else str_of_nat (n div 10) @ [48 + n mod 10])"
  by pat_completeness auto
termination
  by (relation "measure (\<lambda>n. n)") auto

declare str_of_nat.simps [simp del]

section \<open>Base64\<close>

text \<open>
  \<^verbatim>\<open>base64.b64encode\<close>: the standard alphabet, three bytes to four characters, the
  last group padded with \<^verbatim>\<open>=\<close>. The result is a \<^verbatim>\<open>bytes\<close> object.
\<close>

definition b64_alphabet :: pybytes where
  "b64_alphabet = lit ''ABCDEFGHIJKLMNOPQRSTUVWXYZabcdefghijklmnopqrstuvwxyz0123456789+/''"

definition b64_pad :: nat where
  "b64_pad = 61"

definition b64_char :: "nat \<Rightarrow> nat" where
  "b64_char i = b64_alphabet ! (i mod 64)"

fun b64encode :: "pybytes \<Rightarrow> pybytes" where
  "b64encode [] = []"
| "b64encode [a] = [b64_char (a div 4), b64_char ((a mod 4) * 16), b64_pad, b64_pad]"
| "b64encode [a, b] =
     [b64_char (a div 4), b64_char ((a mod 4) * 16 + b div 16), b64_char ((b mod 16) * 4),
      b64_pad]"
| "b64encode (a # b # c # rest) =
     [b64_char (a div 4), b64_char ((a mod 4) * 16 + b div 16),
      b64_char ((b mod 16) * 4 + c div 64), b64_char (c mod 64)] @ b64encode rest"

section \<open>Link generation\<close>

datatype py_exn = IndexError | UnicodeEncodeError | UnicodeDecodeError

text \<open>The body of the \<^verbatim>\<open>try\<close> block of \<^verbatim>\<open>generate_collecthw_url\<close>.\<close>

definition generate_collecthw_url_try :: "pystr \<Rightarrow> py_exn + pystr" where
  "generate_collecthw_url_try code =
     (case py_split hyphen code of
        [] \<Rightarrow> Inl IndexError
      | part # _ \<Rightarrow>
          (let clean_code = py_strip part in
           case utf8_encode clean_code of
             None \<Rightarrow> Inl UnicodeEncodeError
           | Some raw \<Rightarrow>
               (let encoded_bytes = b64encode raw in
                case utf8_decode encoded_bytes of
                  None \<Rightarrow> Inl UnicodeDecodeError
                | Some encoded_str \<Rightarrow>
                    Inr (lit ''https://collecthw.com/hw/search/'' @ encoded_str))))"

text \<open>The bare \<^verbatim>\<open>except:\<close> turns every exception of the body into the sentinel.\<close>

definition generate_collecthw_url :: "pystr \<Rightarrow> pystr" where
  "generate_collecthw_url code =
     (case generate_collecthw_url_try code of
        Inr url \<Rightarrow> url
      | Inl _ \<Rightarrow> lit ''Error generating link'')"

section \<open>Code extraction\<close>

text \<open>The character class \<^verbatim>\<open>[A-Z0-9]\<close>.\<close>

definition code_char :: "codepoint \<Rightarrow> bool" where
  "code_char c \<longleftrightarrow> (65 \<le> c \<and> c \<le> 90) \<or> (48 \<le> c \<and> c \<le> 57)"

text \<open>
  The pattern \<^verbatim>\<open>[A-Z0-9]{5}-[A-Z0-9]{4}\<close> matches at the start of \<open>s\<close>; the
  matched text is then \<open>take 10 s\<close>.
\<close>

definition match_code :: "pystr \<Rightarrow> bool" where
  "match_code s \<longleftrightarrow>
     10 \<le> length s \<and> list_all code_char (take 5 s) \<and> s ! 5 = hyphen \<and>
     list_all code_char (take 4 (drop 6 s))"

text \<open>
  \<^verbatim>\<open>re.findall(pattern, text)\<close>: scan from the left; a match is reported and the
  scan resumes behind it, otherwise it moves on by one character.
\<close>

function re_findall :: "pystr \<Rightarrow> pystr list" where
  "re_findall [] = []"
| "re_findall (c # cs) =
     (if match_code (c # cs) then take 10 (c # cs) # re_findall (drop 10 (c # cs))
      else re_findall cs)"
  by pat_completeness auto
termination
  by (relation "measure length") auto


text \<open>Step 3 of \<^verbatim>\<open>extract_all_codes\<close>: the regex hunt, deduplication and sorting.\<close>

definition regex_hunt :: "pystr \<Rightarrow> pystr list" where
  "regex_hunt text =
     (let matches = re_findall text;
          unique_matches = sorted_list_of_set (set matches)
      in unique_matches)"

text \<open>
  Steps 1 and 2 (grayscale, contrast, OCR) belong to external libraries: the
  parameter \<open>image_to_string\<close> stands for them, and may raise.
\<close>

definition extract_all_codes :: "('img \<Rightarrow> 'e + pystr) \<Rightarrow> 'img \<Rightarrow> 'e + pystr list" where
  "extract_all_codes image_to_string img =
     (case image_to_string img of
        Inl e \<Rightarrow> Inl e
      | Inr text \<Rightarrow> Inr (regex_hunt text))"

section \<open>Spreadsheet rows\<close>

record car =
  code :: pystr
  link :: pystr

type_synonym row = "pystr list"

text \<open>
  What \<^verbatim>\<open>sheet.append_rows\<close> does with the rows it is given: it returns, or raises
  an exception whose text is carried.
\<close>

datatype append_result = Appended | Raised pystr

type_synonym sheet = "row list \<Rightarrow> append_result"

definition sheet_row :: "car \<Rightarrow> row" where
  "sheet_row c =
     (let link_formula = lit ''=HYPERLINK(\"'' @ link c @ lit ''\", \"ID This Car\")''
      in [code c, link_formula, lit ''Unverified''])"

fun add_rows :: "row list \<Rightarrow> car list \<Rightarrow> row list" where
  "add_rows rows_to_add [] = rows_to_add"
| "add_rows rows_to_add (c # cs) = add_rows (rows_to_add @ [sheet_row c]) cs"

text \<open>
  The parameter \<open>get_sheet_connection\<close> is the result of the function of that
  name: a sheet, or \<open>None\<close> when connecting failed.
\<close>

definition save_batch_to_sheet :: "sheet option \<Rightarrow> car list \<Rightarrow> bool \<times> pystr" where
  "save_batch_to_sheet get_sheet_connection car_list =
     (case get_sheet_connection of
        None \<Rightarrow> (False, 0x274C # lit '' Error: Could not connect to Google Sheet.'')
      | Some sheet \<Rightarrow>
          (let rows_to_add = add_rows [] car_list in
           case sheet rows_to_add of
             Appended \<Rightarrow>
               (True, 0x2705 # lit '' Added '' @ str_of_nat (length rows_to_add) @
                        lit '' cars to the sheet!'')
           | Raised e \<Rightarrow> (False, 0x274C # lit '' Cloud Error: '' @ e)))"

section \<open>The session\<close>

record session_state =
  found_cars :: "car list"

datatype ui_event = Success pystr | Warning pystr | Error pystr | Balloons

definition init_session :: session_state where
  "init_session = \<lparr>found_cars = []\<rparr>"

fun build_results :: "car list \<Rightarrow> pystr list \<Rightarrow> car list" where
  "build_results results [] = results"
| "build_results results (c # cs) =
     build_results (results @ [\<lparr>code = c, link = generate_collecthw_url c\<rparr>]) cs"

text \<open>
  The handler of the button "Scan Stack": \<open>handle_codes\<close> is what it does with
  the extracted codes, \<open>scan_stack\<close> the whole of it.
\<close>

definition handle_codes :: "pystr list \<Rightarrow> session_state \<Rightarrow> session_state \<times> ui_event list" where
  "handle_codes codes st =
     (if codes \<noteq> [] then
        (st\<lparr>found_cars := build_results [] codes\<rparr>,
         [Success (lit ''Found '' @ str_of_nat (length codes) @ lit '' Codes!'')])
      else
        (st, [Warning (lit ''No codes found. Ensure text is horizontal and lit well.'')]))"

definition scan_stack ::
  "('img \<Rightarrow> 'e + pystr) \<Rightarrow> 'img \<Rightarrow> session_state \<Rightarrow> 'e + session_state \<times> ui_event list" where
  "scan_stack image_to_string img st =
     (case extract_all_codes image_to_string img of
        Inl e \<Rightarrow> Inl e
      | Inr codes \<Rightarrow> Inr (handle_codes codes st))"

text \<open>
  The handler of the button "Save All to Google Sheet", which is only there
  while the batch is not empty.
\<close>

definition save_all :: "sheet option \<Rightarrow> session_state \<Rightarrow> session_state \<times> ui_event list" where
  "save_all get_sheet_connection st =
     (if found_cars st = [] then (st, [])
      else
        (case save_batch_to_sheet get_sheet_connection (found_cars st) of
           (success, msg) \<Rightarrow>
             if success then (st\<lparr>found_cars := []\<rparr>, [Balloons, Success msg])
             else (st, [Error msg])))"

section \<open>Notions of the specification\<close>

text \<open>The substring of a string before its first hyphen.\<close>

definition before_hyphen :: "pystr \<Rightarrow> pystr" where
  "before_hyphen s = takeWhile (\<lambda>c. c \<noteq> hyphen) s"

text \<open>The fixed URL template.\<close>

definition url_template :: "pystr \<Rightarrow> pystr" where
  "url_template encoded = lit ''https://collecthw.com/hw/search/'' @ encoded"

text \<open>The code points that have a byte representation: all but the surrogates.\<close>

definition scalar_value :: "codepoint \<Rightarrow> bool" where
  "scalar_value c \<longleftrightarrow> c < 0xD800 \<or> (0xDFFF < c \<and> c < 0x110000)"

text \<open>ASCII letters, digits, the hyphen and whitespace.\<close>

definition plain_char :: "codepoint \<Rightarrow> bool" where
  "plain_char c \<longleftrightarrow>
     (65 \<le> c \<and> c \<le> 90) \<or> (97 \<le> c \<and> c \<le> 122) \<or> (48 \<le> c \<and> c \<le> 57) \<or>
     c = hyphen \<or> py_isspace c"

text \<open>The pair of a code and its link, as a scan stores it.\<close>

definition code_record :: "pystr \<Rightarrow> car" where
  "code_record c = \<lparr>code = c, link = generate_collecthw_url c\<rparr>"

section \<open>Auxiliary facts\<close>

subsection \<open>Splitting and stripping\<close>

lemma py_split_first: "\<exists>ps. py_split sep s = takeWhile (\<lambda>c. c \<noteq> sep) s # ps"
  by (induction s) (auto split: list.splits)

lemma dropWhile_none: "\<forall>x\<in>set xs. \<not> P x \<Longrightarrow> dropWhile P xs = xs"
  by (cases xs) simp_all

lemma py_strip_id: "list_all (\<lambda>c. \<not> py_isspace c) s \<Longrightarrow> py_strip s = s"
  by (simp add: py_strip_def py_lstrip_def py_rstrip_def list_all_iff dropWhile_none)

lemma py_strip_subset: "set (py_strip s) \<subseteq> set s"
  by (auto simp: py_strip_def py_lstrip_def py_rstrip_def dest!: set_dropWhileD)

lemma before_hyphen_subset: "set (before_hyphen s) \<subseteq> set s"
  by (auto simp: before_hyphen_def dest: set_takeWhileD)

subsection \<open>UTF-8\<close>

lemma utf8_encode_cp_None: "utf8_encode_cp c = None \<longleftrightarrow> \<not> scalar_value c"
  by (auto simp: utf8_encode_cp_def scalar_value_def)

lemma utf8_encode_None_iff: "utf8_encode s = None \<longleftrightarrow> \<not> list_all scalar_value s"
proof (induction s)
  case Nil
  show ?case by simp
next
  case (Cons c cs)
  show ?case
  proof (cases "utf8_encode_cp c")
    case None
    then show ?thesis using utf8_encode_cp_None[of c] by simp
  next
    case (Some bs)
    then have "scalar_value c" using utf8_encode_cp_None[of c] by simp
    then show ?thesis using Some Cons.IH by (cases "utf8_encode cs") simp_all
  qed
qed

lemma utf8_encode_ascii: "list_all (\<lambda>c. c < 128) s \<Longrightarrow> utf8_encode s = Some s"
  by (induction s) (simp_all add: utf8_encode_cp_def)

lemma utf8_decode_ascii: "list_all (\<lambda>c. c < 128) bs \<Longrightarrow> utf8_decode bs = Some bs"
  by (induction bs) simp_all

subsection \<open>Base64\<close>

lemma b64_alphabet_length: "length b64_alphabet = 64"
  by (simp add: b64_alphabet_def lit_def)

lemma b64_alphabet_distinct: "distinct b64_alphabet"
  by (simp add: b64_alphabet_def lit_def)

lemma b64_alphabet_chars: "list_all (\<lambda>c. c < 128 \<and> c \<noteq> b64_pad) b64_alphabet"
  by (simp add: b64_alphabet_def lit_def b64_pad_def)

lemma b64_char_in: "b64_char i \<in> set b64_alphabet"
  by (simp add: b64_char_def b64_alphabet_length)

lemma b64_char_ascii: "b64_char i < 128"
  using b64_char_in[of i] b64_alphabet_chars by (auto simp: list_all_iff)

lemma b64_char_not_pad: "b64_char i \<noteq> b64_pad" "b64_pad \<noteq> b64_char i"
  using b64_char_in[of i] b64_alphabet_chars by (auto simp: list_all_iff)

lemma b64_char_inj: "i < 64 \<Longrightarrow> j < 64 \<Longrightarrow> b64_char i = b64_char j \<Longrightarrow> i = j"
  using nth_eq_iff_index_eq[OF b64_alphabet_distinct, of i j]
  by (simp add: b64_char_def b64_alphabet_length)

lemma b64encode_ascii: "list_all (\<lambda>c. c < 128) (b64encode bs)"
  by (induction bs rule: b64encode.induct) (simp_all add: b64_char_ascii b64_pad_def)

lemma div4_bound: "a < 256 \<Longrightarrow> a div 4 < (64::nat)"
  by arith

lemma div16_bound: "a < 256 \<Longrightarrow> a div 16 < (16::nat)"
  by arith

lemma div64_bound: "a < 256 \<Longrightarrow> a div 64 < (4::nat)"
  by arith

lemma sextet2_bound: "x < 4 \<Longrightarrow> y < 16 \<Longrightarrow> x * 16 + y < (64::nat)"
  by arith

lemma sextet3_bound: "x < 16 \<Longrightarrow> y < 4 \<Longrightarrow> x * 4 + y < (64::nat)"
  by arith

lemma pack_inj:
  fixes x y x' y' k :: nat
  assumes y: "y < k" and y': "y' < k" and eq: "x * k + y = x' * k + y'"
  shows "x = x' \<and> y = y'"
proof -
  have "x = (x * k + y) div k" using y by simp
  also have "\<dots> = (x' * k + y') div k" by (simp only: eq)
  also have "\<dots> = x'" using y' by simp
  finally have 1: "x = x'" .
  have "y = (x * k + y) mod k" using y by simp
  also have "\<dots> = (x' * k + y') mod k" by (simp only: eq)
  also have "\<dots> = y'" using y' by simp
  finally have 2: "y = y'" .
  from 1 2 show ?thesis by simp
qed

lemma div_mod_eq: "a div k = a' div k \<Longrightarrow> a mod k = a' mod k \<Longrightarrow> a = (a'::nat)"
  by (metis div_mult_mod_eq)

lemma b64_group_inj:
  assumes a: "a < 256" and b: "b < 256" and c: "c < 256"
    and a': "a' < 256" and b': "b' < 256" and c': "c' < 256"
    and e1: "b64_char (a div 4) = b64_char (a' div 4)"
    and e2: "b64_char (a mod 4 * 16 + b div 16) = b64_char (a' mod 4 * 16 + b' div 16)"
    and e3: "b64_char (b mod 16 * 4 + c div 64) = b64_char (b' mod 16 * 4 + c' div 64)"
    and e4: "b64_char (c mod 64) = b64_char (c' mod 64)"
  shows "a = a' \<and> b = b' \<and> c = c'"
proof -
  have d1: "a div 4 = a' div 4"
    by (rule b64_char_inj[OF div4_bound[OF a] div4_bound[OF a'] e1])
  have s2: "a mod 4 * 16 + b div 16 < 64" "a' mod 4 * 16 + b' div 16 < 64"
    using div16_bound[OF b] div16_bound[OF b'] by (simp_all add: sextet2_bound)
  have d2: "a mod 4 = a' mod 4 \<and> b div 16 = b' div 16"
    by (rule pack_inj[OF div16_bound[OF b] div16_bound[OF b'] b64_char_inj[OF s2 e2]])
  have s3: "b mod 16 * 4 + c div 64 < 64" "b' mod 16 * 4 + c' div 64 < 64"
    using div64_bound[OF c] div64_bound[OF c'] by (simp_all add: sextet3_bound)
  have d3: "b mod 16 = b' mod 16 \<and> c div 64 = c' div 64"
    by (rule pack_inj[OF div64_bound[OF c] div64_bound[OF c'] b64_char_inj[OF s3 e3]])
  have d4: "c mod 64 = c' mod 64"
    by (rule b64_char_inj[OF _ _ e4]) simp_all
  show ?thesis
    using d1 d2 d3 d4 div_mod_eq[of a 4 a'] div_mod_eq[of b 16 b'] div_mod_eq[of c 64 c']
    by blast
qed

lemma b64encode_inj:
  "list_all (\<lambda>b. b < 256) xs \<Longrightarrow> list_all (\<lambda>b. b < 256) ys \<Longrightarrow>
   b64encode xs = b64encode ys \<Longrightarrow> xs = ys"
proof (induction xs arbitrary: ys rule: b64encode.induct)
  case 1
  then show ?case by (cases ys rule: b64encode.cases) simp_all
next
  case (2 a)
  note P = this
  show ?case
  proof (cases ys rule: b64encode.cases)
    case 1
    with P show ?thesis by simp
  next
    case (2 a')
    with P have "b64_char (a div 4) = b64_char (a' div 4)"
      "b64_char (a mod 4 * 16 + 0 div 16) = b64_char (a' mod 4 * 16 + 0 div 16)"
      "a < 256" "a' < 256"
      by simp_all
    then have "a = a' \<and> (0::nat) = 0 \<and> (0::nat) = 0"
      by (intro b64_group_inj) simp_all
    with 2 show ?thesis by simp
  next
    case (3 a' b')
    with P show ?thesis by (simp add: b64_char_not_pad)
  next
    case (4 a' b' c' rest')
    with P show ?thesis by (simp add: b64_char_not_pad)
  qed
next
  case (3 a b)
  note P = this
  show ?case
  proof (cases ys rule: b64encode.cases)
    case 1
    with P show ?thesis by simp
  next
    case (2 a')
    with P show ?thesis by (simp add: b64_char_not_pad)
  next
    case (3 a' b')
    with P have "b64_char (a div 4) = b64_char (a' div 4)"
      "b64_char (a mod 4 * 16 + b div 16) = b64_char (a' mod 4 * 16 + b' div 16)"
      "b64_char (b mod 16 * 4 + 0 div 64) = b64_char (b' mod 16 * 4 + 0 div 64)"
      "a < 256" "a' < 256" "b < 256" "b' < 256"
      by simp_all
    then have "a = a' \<and> b = b' \<and> (0::nat) = 0"
      by (intro b64_group_inj) simp_all
    with 3 show ?thesis by simp
  next
    case (4 a' b' c' rest')
    with P show ?thesis by (simp add: b64_char_not_pad)
  qed
next
  case (4 a b c rest)
  note P = this
  show ?case
  proof (cases ys rule: b64encode.cases)
    case 1
    with P(2-) show ?thesis by simp
  next
    case (2 a')
    with P(2-) show ?thesis by (simp add: b64_char_not_pad)
  next
    case (3 a' b')
    with P(2-) show ?thesis by (simp add: b64_char_not_pad)
  next
    case (4 a' b' c' rest')
    with P(2-) have e: "b64_char (a div 4) = b64_char (a' div 4)"
      "b64_char (a mod 4 * 16 + b div 16) = b64_char (a' mod 4 * 16 + b' div 16)"
      "b64_char (b mod 16 * 4 + c div 64) = b64_char (b' mod 16 * 4 + c' div 64)"
      "b64_char (c mod 64) = b64_char (c' mod 64)"
      and bnd: "a < 256" "a' < 256" "b < 256" "b' < 256" "c < 256" "c' < 256"
      and r: "list_all (\<lambda>b. b < 256) rest" "list_all (\<lambda>b. b < 256) rest'"
        "b64encode rest = b64encode rest'"
      by simp_all
    have "a = a' \<and> b = b' \<and> c = c'"
      using e bnd by (intro b64_group_inj) simp_all
    moreover have "rest = rest'"
      using r by (rule P(1))
    ultimately show ?thesis using 4 by simp
  qed
qed

subsection \<open>Link generation\<close>

lemma generate_try_eq:
  "generate_collecthw_url_try s =
     (case utf8_encode (py_strip (before_hyphen s)) of
        None \<Rightarrow> Inl UnicodeEncodeError
      | Some raw \<Rightarrow> Inr (url_template (b64encode raw)))"
proof -
  obtain ps where "py_split hyphen s = before_hyphen s # ps"
    using py_split_first[of hyphen s] by (auto simp: before_hyphen_def)
  then show ?thesis
    by (simp add: generate_collecthw_url_try_def url_template_def Let_def
        utf8_decode_ascii b64encode_ascii split: option.splits)
qed

lemma generate_eq:
  "generate_collecthw_url s =
     (case utf8_encode (py_strip (before_hyphen s)) of
        None \<Rightarrow> lit ''Error generating link''
      | Some raw \<Rightarrow> url_template (b64encode raw))"
  by (simp add: generate_collecthw_url_def generate_try_eq split: option.splits)

lemma plain_char_scalar: "plain_char c \<Longrightarrow> scalar_value c"
  by (auto simp: plain_char_def scalar_value_def py_isspace_def hyphen_def)

lemma code_char_ascii: "code_char c \<Longrightarrow> c < 128 \<and> \<not> py_isspace c \<and> c \<noteq> hyphen"
  by (auto simp: code_char_def py_isspace_def hyphen_def)

lemma match_code_prefix:
  assumes "match_code c"
  shows "before_hyphen c = take 5 c" and "list_all code_char (take 5 c)"
proof -
  from assms have len: "10 \<le> length c" and cls: "list_all code_char (take 5 c)"
    and hy: "c ! 5 = hyphen"
    by (simp_all add: match_code_def)
  show "list_all code_char (take 5 c)" by (rule cls)
  have "c ! i \<noteq> hyphen" if "i < 5" for i
  proof -
    from cls that len have "code_char (take 5 c ! i)" by (simp add: list_all_length)
    with that show ?thesis using code_char_ascii by auto
  qed
  then show "before_hyphen c = take 5 c"
    unfolding before_hyphen_def using hy by (intro takeWhile_eq_take_P_nth) simp_all
qed

lemma add_rows_map: "add_rows acc cs = acc @ map sheet_row cs"
  by (induction cs arbitrary: acc) simp_all

lemma build_results_map: "build_results acc cs = acc @ map code_record cs"
  by (induction cs arbitrary: acc) (simp_all add: code_record_def)

lemma url_template_inj: "url_template x = url_template y \<longleftrightarrow> x = y"
  by (simp add: url_template_def)

lemma url_template_not_sentinel: "url_template x \<noteq> lit ''Error generating link''"
  by (simp add: url_template_def lit_def)

lemma url_template_take: "take 32 (url_template x) = lit ''https://collecthw.com/hw/search/''"
  by (simp add: url_template_def lit_def)

subsection \<open>Evaluation on concrete inputs\<close>

lemmas link_eval =
  generate_collecthw_url_def generate_collecthw_url_try_def lit_def hyphen_def py_strip_def
  py_lstrip_def py_rstrip_def py_isspace_def utf8_encode_cp_def b64_char_def b64_alphabet_def
  b64_pad_def before_hyphen_def url_template_def scalar_value_def plain_char_def

lemmas scan_eval =
  regex_hunt_def match_code_def code_char_def lit_def hyphen_def sorted_list_of_set_sort_remdups

subsection \<open>The scan\<close>













lemma regex_hunt_sorted:
  "distinct (regex_hunt text) \<and> sorted (regex_hunt text) \<and> sorted_wrt (<) (regex_hunt text)"
  by (simp add: regex_hunt_def)

section \<open>Link generation: the claims\<close>




text \<open>
  C5. \<open>generate_collecthw_url\<close> never raises: the only exception its body can raise
  is the one of the encoding step, whenever that step fails the result is exactly
  the literal \<^verbatim>\<open>Error generating link\<close>, and otherwise it is the string the body
  returns.
\<close>

theorem generate_link_never_raises:
  "(utf8_encode (py_strip (before_hyphen s)) = None \<longrightarrow>
      generate_collecthw_url s = lit ''Error generating link'') \<and>
   (\<forall>e. generate_collecthw_url_try s = Inl e \<longrightarrow>
      e = UnicodeEncodeError \<and> utf8_encode (py_strip (before_hyphen s)) = None \<and>
      generate_collecthw_url s = lit ''Error generating link'') \<and>
   (\<forall>u. generate_collecthw_url_try s = Inr u \<longrightarrow> generate_collecthw_url s = u)"
proof (intro conjI allI impI)
  assume "utf8_encode (py_strip (before_hyphen s)) = None"
  then show "generate_collecthw_url s = lit ''Error generating link''"
    by (simp add: generate_eq)
next
  fix e
  assume e: "generate_collecthw_url_try s = Inl e"
  then show "e = UnicodeEncodeError"
    by (simp add: generate_try_eq split: option.splits)
  from e show "utf8_encode (py_strip (before_hyphen s)) = None"
    by (simp add: generate_try_eq split: option.splits)
  from e show "generate_collecthw_url s = lit ''Error generating link''"
    by (simp add: generate_collecthw_url_def)
next
  fix u
  assume "generate_collecthw_url_try s = Inr u"
  then show "generate_collecthw_url s = u"
    by (simp add: generate_collecthw_url_def)
qed

text \<open>The theorem at a string whose prefix ends in the surrogate U+DFFF.\<close>

theorem generate_link_never_raises_witness:
  "utf8_encode (py_strip (before_hyphen (lit ''JBC'' @ [0xDFFF] @ lit ''-N7C5''))) = None \<and>
   generate_collecthw_url_try (lit ''JBC'' @ [0xDFFF] @ lit ''-N7C5'') = Inl UnicodeEncodeError \<and>
   generate_collecthw_url (lit ''JBC'' @ [0xDFFF] @ lit ''-N7C5'') = lit ''Error generating link'' \<and>
   generate_collecthw_url_try (lit ''HKJ88-X2Z1'') =
     Inr (lit ''https://collecthw.com/hw/search/SEtKODg='') \<and>
   generate_collecthw_url (lit ''HKJ88-X2Z1'') = lit ''https://collecthw.com/hw/search/SEtKODg=''"
  using generate_link_never_raises[of "lit ''JBC'' @ [0xDFFF] @ lit ''-N7C5''"]
    generate_link_never_raises[of "lit ''HKJ88-X2Z1''"]
  by (simp add: link_eval)

text \<open>
  C6. \<open>generate_collecthw_url\<close> is a function of its input, and on codes that match
  the fixed pattern it is injective over the part before the first hyphen: equal
  prefixes give equal links, differing prefixes give differing links.
\<close>

theorem generate_link_injective:
  assumes "match_code c1" and "match_code c2"
  shows "(c1 = c2 \<longrightarrow> generate_collecthw_url c1 = generate_collecthw_url c2) \<and>
    (before_hyphen c1 = before_hyphen c2 \<longrightarrow>
       generate_collecthw_url c1 = generate_collecthw_url c2) \<and>
    (before_hyphen c1 \<noteq> before_hyphen c2 \<longrightarrow>
       generate_collecthw_url c1 \<noteq> generate_collecthw_url c2)"
proof -
  have g: "generate_collecthw_url c = url_template (b64encode (before_hyphen c)) \<and>
      list_all (\<lambda>b. b < 256) (before_hyphen c)"
    if "match_code c" for c
  proof -
    have bh: "before_hyphen c = take 5 c" and cls: "list_all code_char (take 5 c)"
      using match_code_prefix[OF that] by simp_all
    from cls have asc: "list_all (\<lambda>c. c < 128) (take 5 c)"
      and nsp: "list_all (\<lambda>c. \<not> py_isspace c) (take 5 c)"
      using code_char_ascii by (auto simp: list_all_iff)
    from asc have "list_all (\<lambda>b. b < 256) (take 5 c)"
      by (auto simp: list_all_iff)
    then show ?thesis
      by (simp add: generate_eq bh py_strip_id[OF nsp] utf8_encode_ascii[OF asc])
  qed
  from g[OF assms(1)] g[OF assms(2)] show ?thesis
    by (auto simp: url_template_inj dest: b64encode_inj)
qed

text \<open>The theorem at two codes of the scenario, and at two codes with one prefix.\<close>

theorem generate_link_injective_witness:
  "match_code (lit ''JBC19-N7C5'') \<and> match_code (lit ''HKJ88-X2Z1'') \<and>
   match_code (lit ''JBC19-A1B2'') \<and>
   generate_collecthw_url (lit ''JBC19-N7C5'') \<noteq> generate_collecthw_url (lit ''HKJ88-X2Z1'') \<and>
   generate_collecthw_url (lit ''JBC19-N7C5'') = generate_collecthw_url (lit ''JBC19-A1B2'')"
  using generate_link_injective[of "lit ''JBC19-N7C5''" "lit ''HKJ88-X2Z1''"]
    generate_link_injective[of "lit ''JBC19-N7C5''" "lit ''JBC19-A1B2''"]
  by (simp add: link_eval match_code_def code_char_def)

text \<open>
  C10. On an input of ASCII letters, digits, hyphens and whitespace the error
  branch is not taken: the body returns, the result is not the sentinel
  \<^verbatim>\<open>Error generating link\<close>, and it begins with
  \<^verbatim>\<open>https://collecthw.com/hw/search/\<close>.
\<close>

theorem plain_input_no_error:
  assumes "list_all plain_char s"
  shows "(\<exists>u. generate_collecthw_url_try s = Inr u) \<and>
    generate_collecthw_url s \<noteq> lit ''Error generating link'' \<and>
    take 32 (generate_collecthw_url s) = lit ''https://collecthw.com/hw/search/''"
proof -
  have "set (py_strip (before_hyphen s)) \<subseteq> set s"
    by (rule subset_trans[OF py_strip_subset before_hyphen_subset])
  with assms have "list_all scalar_value (py_strip (before_hyphen s))"
    by (auto simp: list_all_iff intro: plain_char_scalar)
  then have "utf8_encode (py_strip (before_hyphen s)) \<noteq> None"
    by (simp add: utf8_encode_None_iff)
  then obtain raw where "utf8_encode (py_strip (before_hyphen s)) = Some raw"
    by blast
  then show ?thesis
    by (simp add: generate_eq generate_try_eq url_template_not_sentinel url_template_take)
qed

text \<open>The theorem at a well-formed code, at a string without hyphen and at the empty string.\<close>

theorem plain_input_no_error_witness:
  "list_all plain_char (lit ''JBC19-N7C5'') \<and>
   generate_collecthw_url (lit ''JBC19-N7C5'') \<noteq> lit ''Error generating link'' \<and>
   list_all plain_char (lit ''hw Stack 7'') \<and>
   generate_collecthw_url (lit ''hw Stack 7'') = lit ''https://collecthw.com/hw/search/aHcgU3RhY2sgNw=='' \<and>
   list_all plain_char [] \<and>
   generate_collecthw_url [] = lit ''https://collecthw.com/hw/search/''"
  using plain_input_no_error[of "lit ''JBC19-N7C5''"] plain_input_no_error[of "lit ''hw Stack 7''"]
    plain_input_no_error[of "[]"]
  by (simp add: link_eval)

section \<open>Code extraction: the claims\<close>

text \<open>
  C2. For every OCR text the codes extracted from it have no duplicates and are
  in ascending lexicographic order.
\<close>

theorem extracted_codes_sorted_distinct:
  "distinct (regex_hunt text) \<and> sorted (regex_hunt text) \<and> sorted_wrt (<) (regex_hunt text) \<and>
   (extract_all_codes image_to_string img = Inr codes \<longrightarrow> distinct codes \<and> sorted codes)"
  using regex_hunt_sorted by (auto simp: extract_all_codes_def split: sum.splits)

text \<open>The theorem at a text that holds one code three times, after a greater one.\<close>

theorem extracted_codes_sorted_distinct_witness:
  "extract_all_codes (\<lambda>i::unit. Inr (lit ''X2Z1K-9JBC JBC19-N7C5 JBC19-N7C5 JBC19-N7C5'') :: unit + pystr) () =
     Inr [lit ''JBC19-N7C5'', lit ''X2Z1K-9JBC''] \<and>
   distinct [lit ''JBC19-N7C5'', lit ''X2Z1K-9JBC''] \<and> sorted [lit ''JBC19-N7C5'', lit ''X2Z1K-9JBC'']"
  using extracted_codes_sorted_distinct[of "lit ''X2Z1K-9JBC JBC19-N7C5 JBC19-N7C5 JBC19-N7C5''"
      "\<lambda>i::unit. Inr (lit ''X2Z1K-9JBC JBC19-N7C5 JBC19-N7C5 JBC19-N7C5'') :: unit + pystr" "()"
      "[lit ''JBC19-N7C5'', lit ''X2Z1K-9JBC'']"]
  by (simp add: extract_all_codes_def scan_eval)





section \<open>Batch and spreadsheet: the claims\<close>

text \<open>
  C7. From a session state with a non-empty batch, the save action leaves the
  batch empty if the spreadsheet write succeeds, and leaves the batch as it was
  if the write fails; the write succeeds exactly when there is a connection and
  appending the rows of the batch returns.
\<close>

theorem save_all_batch:
  assumes "found_cars st \<noteq> []"
  shows "(fst (save_batch_to_sheet conn (found_cars st)) \<longrightarrow>
       found_cars (fst (save_all conn st)) = []) \<and>
    (\<not> fst (save_batch_to_sheet conn (found_cars st)) \<longrightarrow>
       found_cars (fst (save_all conn st)) = found_cars st \<and>
       length (found_cars (fst (save_all conn st))) = length (found_cars st)) \<and>
    (fst (save_batch_to_sheet conn (found_cars st)) \<longleftrightarrow>
       (\<exists>sheet. conn = Some sheet \<and> sheet (map sheet_row (found_cars st)) = Appended))"
proof -
  have s: "fst (save_batch_to_sheet conn cars) \<longleftrightarrow>
      (\<exists>sheet. conn = Some sheet \<and> sheet (map sheet_row cars) = Appended)" for cars
    by (cases conn)
      (auto simp: save_batch_to_sheet_def add_rows_map Let_def split: append_result.splits)
  have t: "found_cars (fst (save_all conn st)) =
      (if fst (save_batch_to_sheet conn (found_cars st)) then [] else found_cars st)"
    using assms by (simp add: save_all_def split: prod.splits)
  show ?thesis
  proof (intro conjI)
    show "fst (save_batch_to_sheet conn (found_cars st)) \<longrightarrow>
        found_cars (fst (save_all conn st)) = []"
      by (simp add: t)
    show "\<not> fst (save_batch_to_sheet conn (found_cars st)) \<longrightarrow>
        found_cars (fst (save_all conn st)) = found_cars st \<and>
        length (found_cars (fst (save_all conn st))) = length (found_cars st)"
      by (simp add: t)
    show "fst (save_batch_to_sheet conn (found_cars st)) \<longleftrightarrow>
        (\<exists>sheet. conn = Some sheet \<and> sheet (map sheet_row (found_cars st)) = Appended)"
      by (rule s)
  qed
qed

text \<open>The theorem at a batch of one record: a write that returns, and no connection.\<close>

theorem save_all_batch_witness:
  "found_cars \<lparr>found_cars = [code_record (lit ''JBC19-N7C5'')]\<rparr> \<noteq> [] \<and>
   found_cars (fst (save_all (Some (\<lambda>rows. Appended))
     \<lparr>found_cars = [code_record (lit ''JBC19-N7C5'')]\<rparr>)) = [] \<and>
   found_cars (fst (save_all None \<lparr>found_cars = [code_record (lit ''JBC19-N7C5'')]\<rparr>)) =
     [code_record (lit ''JBC19-N7C5'')]"
  using save_all_batch[of "\<lparr>found_cars = [code_record (lit ''JBC19-N7C5'')]\<rparr>"
      "Some (\<lambda>rows. Appended)"]
    save_all_batch[of "\<lparr>found_cars = [code_record (lit ''JBC19-N7C5'')]\<rparr>" None]
  by (simp add: save_all_def save_batch_to_sheet_def Let_def)

text \<open>
  C8, as amended. For every prior batch and every extraction result that is not
  empty, a scan replaces the batch wholesale: afterward the batch is exactly the
  list of the (code, link) pairs built from the new result, in its order. For
  the empty extraction result the batch is left as it was.
\<close>

theorem scan_replaces_batch:
  "(codes \<noteq> [] \<longrightarrow> found_cars (fst (handle_codes codes st)) = map code_record codes) \<and>
   (codes = [] \<longrightarrow> found_cars (fst (handle_codes codes st)) = found_cars st) \<and>
   (image_to_string img = Inr text \<longrightarrow>
      scan_stack image_to_string img st = Inr (handle_codes (regex_hunt text) st))"
  by (simp add: handle_codes_def build_results_map scan_stack_def extract_all_codes_def)

text \<open>The theorem at a prior batch of one record and a new result of one code.\<close>

theorem scan_replaces_batch_witness:
  "[lit ''HKJ88-X2Z1''] \<noteq> [] \<and>
   found_cars (fst (handle_codes [lit ''HKJ88-X2Z1'']
     \<lparr>found_cars = [code_record (lit ''JBC19-N7C5'')]\<rparr>)) = [code_record (lit ''HKJ88-X2Z1'')]"
  using scan_replaces_batch[of "[lit ''HKJ88-X2Z1'']"
      "\<lparr>found_cars = [code_record (lit ''JBC19-N7C5'')]\<rparr>"
      "\<lambda>i::unit. Inr [] :: unit + pystr" "()" "[]"]
  by (simp add: handle_codes_def code_record_def)

text \<open>
  C8 as stated fails at the empty extraction result: a prior batch of one record
  is still there after the scan, where the pairs built from the result are none.
\<close>

theorem scan_replaces_batch_counterexample:
  "found_cars (fst (handle_codes [] \<lparr>found_cars = [code_record (lit ''JBC19-N7C5'')]\<rparr>)) =
     [code_record (lit ''JBC19-N7C5'')] \<and>
   found_cars (fst (handle_codes [] \<lparr>found_cars = [code_record (lit ''JBC19-N7C5'')]\<rparr>)) \<noteq>
     map code_record []"
  by (simp add: handle_codes_def)

text \<open>
  C9. The rows handed to the spreadsheet are one row per record of the batch, in
  batch order; each row is the record's code, the formula
  \<^verbatim>\<open>=HYPERLINK("link", "ID This Car")\<close> on the record's link, and the status
  \<^verbatim>\<open>Unverified\<close>. The save succeeds exactly when appending these rows returns.
\<close>

theorem rows_handed_to_sheet:
  "add_rows [] car_list =
     map (\<lambda>c. [code c, lit ''=HYPERLINK(\"'' @ link c @ lit ''\", \"ID This Car\")'',
               lit ''Unverified'']) car_list \<and>
   length (add_rows [] car_list) = length car_list \<and>
   fst (save_batch_to_sheet (Some sheet) car_list) =
     (sheet (map (\<lambda>c. [code c, lit ''=HYPERLINK(\"'' @ link c @ lit ''\", \"ID This Car\")'',
                        lit ''Unverified'']) car_list) = Appended)"
proof -
  have m: "map sheet_row car_list =
      map (\<lambda>c. [code c, lit ''=HYPERLINK(\"'' @ link c @ lit ''\", \"ID This Car\")'',
                lit ''Unverified'']) car_list"
    by (simp add: sheet_row_def Let_def)
  have "fst (save_batch_to_sheet (Some sheet) car_list) =
      (sheet (map sheet_row car_list) = Appended)"
    by (simp add: save_batch_to_sheet_def add_rows_map Let_def split: append_result.splits)
  then show ?thesis by (simp add: add_rows_map m)
qed

text \<open>The theorem at a batch of two records.\<close>

theorem rows_handed_to_sheet_witness:
  "add_rows [] [\<lparr>code = lit ''HKJ88-X2Z1'', link = lit ''u1''\<rparr>,
               \<lparr>code = lit ''JBC19-N7C5'', link = lit ''u2''\<rparr>] =
     [[lit ''HKJ88-X2Z1'', lit ''=HYPERLINK(\"u1\", \"ID This Car\")'', lit ''Unverified''],
      [lit ''JBC19-N7C5'', lit ''=HYPERLINK(\"u2\", \"ID This Car\")'', lit ''Unverified'']]"
  using rows_handed_to_sheet[of "[\<lparr>code = lit ''HKJ88-X2Z1'', link = lit ''u1''\<rparr>,
      \<lparr>code = lit ''JBC19-N7C5'', link = lit ''u2''\<rparr>]"]
  by (simp add: lit_def)

end
